theory Spec2Isabelle
  imports Main "HOL-Library.Mapping" "HOL-Library.AList_Mapping"
begin

section \<open>Vector clocks\<close>

text \<open>
  \<^verbatim>\<open>export type Clock = Map<string, number>\<close>: an Immutable.js map from actor id to
  sequence number. Two such maps are equal when they hold the same keys with the same
  values, which is equality of \<open>mapping\<close>.
\<close>

type_synonym Clock = "(string, nat) mapping"

text \<open>
  Modelled from the spec: \<^verbatim>\<open>lessOrEqual\<close> is imported from \<^verbatim>\<open>./lib/lessOrEqual\<close>, which is
  not among the sources. The spec: "true iff for every actor k present in a,
  a[k] \<le> b[k] (absent keys treated as zero on both sides)".
\<close>

definition lessOrEqual :: "Clock \<Rightarrow> Clock \<Rightarrow> bool" where
  "lessOrEqual a b =
     (\<forall>k \<in> Mapping.keys a. Mapping.lookup_default 0 a k \<le> Mapping.lookup_default 0 b k)"

text \<open>
  Immutable.js \<^verbatim>\<open>oldClock.mergeWith(merger, clock)\<close>: every key of either map; where both
  hold the key the value is \<^verbatim>\<open>merger(oldValue, newValue)\<close>, otherwise the one present.
\<close>

definition mergeWith :: "(nat \<Rightarrow> nat \<Rightarrow> nat) \<Rightarrow> Clock \<Rightarrow> Clock \<Rightarrow> Clock" where
  "mergeWith merger oldClock c = Mapping.combine merger oldClock c"

definition largestWins :: "nat \<Rightarrow> nat \<Rightarrow> nat" where
  "largestWins x y = max x y"

section \<open>DocumentSync\<close>

subsection \<open>Data\<close>

text \<open>
  \<^verbatim>\<open>interface Message { clock: Clock; changes?: A.Change[] }\<close>. \<^verbatim>\<open>receive\<close> tests both
  fields for truthiness, so both are optional here: \<open>None\<close> is \<^verbatim>\<open>undefined\<close>/\<^verbatim>\<open>null\<close>.
  An empty array of changes is truthy in JavaScript: it is \<open>Some []\<close>.
\<close>

record 'c Message =
  clock :: "Clock option"
  changes :: "'c list option"

text \<open>
  \<^verbatim>\<open>type Clocks = { ours: Clock; theirs: Clock }\<close>. The code reads both fields as
  \<^verbatim>\<open>this.clock[which] || ...\<close>, so a field may be \<^verbatim>\<open>undefined\<close> (\<open>None\<close>).
\<close>

record Clocks =
  ours :: "Clock option"
  theirs :: "Clock option"

datatype which = Ours | Theirs

fun clockField :: "which \<Rightarrow> Clocks \<Rightarrow> Clock option" where
  "clockField Ours cs = ours cs"
| "clockField Theirs cs = theirs cs"

fun setClockField :: "which \<Rightarrow> Clock option \<Rightarrow> Clocks \<Rightarrow> Clocks" where
  "setClockField Ours v cs = cs\<lparr>ours := v\<rparr>"
| "setClockField Theirs v cs = cs\<lparr>theirs := v\<rparr>"

text \<open>
  Automerge's \<^verbatim>\<open>WatchableDoc\<close>: the current document and the set of handler functions
  (an Immutable.js \<^verbatim>\<open>Set\<close>, whose members are functions compared by identity). A handler
  is represented by the identity of its function object, a number. The model covers one
  DocumentSync and the handlers it subscribes itself: every identity in \<open>handlers\<close>
  stands for a function made by \<^verbatim>\<open>this.docChanged.bind(this)\<close>.
\<close>

record 'd WatchableDoc =
  doc :: 'd
  handlers :: "nat list"

text \<open>
  The state of one \<^verbatim>\<open>DocumentSync\<close>: the fields \<^verbatim>\<open>watchableDoc\<close> and \<^verbatim>\<open>clock\<close>; the
  messages handed to the \<^verbatim>\<open>send\<close> callback so far, oldest first (\<open>sent\<close>); and the number of
  function objects \<^verbatim>\<open>this.docChanged.bind(this)\<close> has created so far (\<open>bound\<close>): every
  call of \<^verbatim>\<open>bind\<close> returns a new function object.
\<close>

record ('d, 'c) DocumentSync =
  watchableDoc :: "'d WatchableDoc"
  clock :: Clocks
  sent :: "'c Message list"
  bound :: nat

text \<open>
  What DocumentSync uses of the Automerge library, taken as parameters:
  \<^item> \<open>clockOf d\<close> is \<^verbatim>\<open>A.Frontend.getBackendState(d).getIn(['opSet', 'clock'])\<close>, \<open>None\<close>
    when the state of the document carries no clock (a document with no backend state at
    all, on which \<^verbatim>\<open>getIn\<close> itself throws, is not among the documents modelled);
  \<^item> \<open>getMissingChanges d c\<close> is \<^verbatim>\<open>A.Backend.getMissingChanges\<close> on the state of \<open>d\<close>;
  \<^item> \<open>applyChanges d cs\<close> is the document \<^verbatim>\<open>WatchableDoc.applyChanges\<close> computes from
    \<open>d\<close> and the changes \<open>cs\<close>.
\<close>

record ('d, 'c) Automerge =
  clockOf :: "'d \<Rightarrow> Clock option"
  getMissingChanges :: "'d \<Rightarrow> Clock \<Rightarrow> 'c list"
  applyChanges :: "'d \<Rightarrow> 'c list \<Rightarrow> 'd"

datatype error = TypeError string | RangeError string

definition ERR_OLDCLOCK :: string where
  "ERR_OLDCLOCK = ''Cannot pass an old state object to a connection''"

definition ERR_NOCLOCK :: string where
  "ERR_NOCLOCK = ''This object cannot be used for network sync. '' @
     ''Are you trying to sync a snapshot from the history?''"

text \<open>The message of the TypeError JavaScript raises when a method is called on \<^verbatim>\<open>undefined\<close>.\<close>

definition ERR_UNDEFINED :: string where
  "ERR_UNDEFINED = ''Cannot read property of undefined''"

text \<open>
  A method returns normally with a value (\<open>Inr\<close>) or throws (\<open>Inl\<close>); either way the
  object is left in some state, the second component.
\<close>

type_synonym ('a, 'd, 'c) outcome = "(error + 'a) \<times> ('d, 'c) DocumentSync"

definition andThen ::
  "('a, 'd, 'c) outcome \<Rightarrow> ('a \<Rightarrow> ('d, 'c) DocumentSync \<Rightarrow> ('b, 'd, 'c) outcome) \<Rightarrow> ('b, 'd, 'c) outcome" where
  "andThen r f = (case r of (Inl e, s) \<Rightarrow> (Inl e, s) | (Inr x, s) \<Rightarrow> f x s)"

subsection \<open>Construction and the private methods\<close>

text \<open>\<^verbatim>\<open>this.clock = { ours: Map(), theirs: Map() }\<close>; nothing sent, nothing bound yet.\<close>

definition constructor :: "'d WatchableDoc \<Rightarrow> ('d, 'c) DocumentSync" where
  "constructor w =
     \<lparr>watchableDoc = w, clock = \<lparr>ours = Some Mapping.empty, theirs = Some Mapping.empty\<rparr>,
      sent = [], bound = 0\<rparr>"

definition send :: "'c Message \<Rightarrow> ('d, 'c) DocumentSync \<Rightarrow> ('d, 'c) DocumentSync" where
  "send msg s = s\<lparr>sent := sent s @ [msg]\<rparr>"

text \<open>\<^verbatim>\<open>return this.clock[which] || initialClockValue\<close>; a Map object is always truthy.\<close>

definition getClock :: "which \<Rightarrow> ('d, 'c) DocumentSync \<Rightarrow> Clock option" where
  "getClock w s =
     (let initialClockValue = (if w = Ours then Some Mapping.empty else None)
      in case clockField w (clock s) of Some c \<Rightarrow> Some c | None \<Rightarrow> initialClockValue)"

definition getState :: "('d, 'c) DocumentSync \<Rightarrow> 'd" where
  "getState s = doc (watchableDoc s)"

definition getClockFromDoc :: "('d, 'c) Automerge \<Rightarrow> ('d, 'c) DocumentSync \<Rightarrow> Clock option" where
  "getClockFromDoc A s = clockOf A (getState s)"

text \<open>
  A parameter declared \<^verbatim>\<open>clock = this.getClockFromDoc()\<close>: an argument that is omitted or
  \<^verbatim>\<open>undefined\<close> (\<open>None\<close>) is replaced by the document's clock.
\<close>

definition orClockFromDoc ::
  "('d, 'c) Automerge \<Rightarrow> Clock option \<Rightarrow> ('d, 'c) DocumentSync \<Rightarrow> Clock option" where
  "orClockFromDoc A c s = (case c of Some x \<Rightarrow> Some x | None \<Rightarrow> getClockFromDoc A s)"

text \<open>
  \<^verbatim>\<open>updateClock(which, clock = this.getClockFromDoc())\<close>. Merging \<^verbatim>\<open>undefined\<close> into an
  Immutable.js map adds nothing.
\<close>

definition updateClock ::
  "('d, 'c) Automerge \<Rightarrow> which \<Rightarrow> Clock option \<Rightarrow> ('d, 'c) DocumentSync \<Rightarrow> ('d, 'c) DocumentSync" where
  "updateClock A w c s =
     (let c' = orClockFromDoc A c s;
          oldClock = (case clockField w (clock s) of Some x \<Rightarrow> x | None \<Rightarrow> Mapping.empty);
          newClock = mergeWith largestWins oldClock (case c' of Some x \<Rightarrow> x | None \<Rightarrow> Mapping.empty)
      in s\<lparr>clock := setClockField w (Some newClock) (clock s)\<rparr>)"

text \<open>
  \<^verbatim>\<open>validateDoc(clock)\<close>: throws \<^verbatim>\<open>TypeError(ERR_NOCLOCK)\<close> when the clock is falsy, then
  \<^verbatim>\<open>RangeError(ERR_OLDCLOCK)\<close> unless \<^verbatim>\<open>lessOrEqual(ourClock, clock)\<close>.
\<close>

definition validateDoc :: "Clock option \<Rightarrow> ('d, 'c) DocumentSync \<Rightarrow> (unit, 'd, 'c) outcome" where
  "validateDoc c s =
     (let ourClock = getClock Ours s
      in case c of
           None \<Rightarrow> (Inl (TypeError ERR_NOCLOCK), s)
         | Some clk \<Rightarrow>
             (case ourClock of
                None \<Rightarrow> (Inl (TypeError ERR_UNDEFINED), s)
              | Some oc \<Rightarrow>
                  if \<not> lessOrEqual oc clk then (Inl (RangeError ERR_OLDCLOCK), s)
                  else (Inr (), s)))"

text \<open>
  \<^verbatim>\<open>requestChanges(clock = this.getClockFromDoc())\<close> sends \<^verbatim>\<open>{ clock: clock.toJS() }\<close>;
  \<^verbatim>\<open>toJS\<close> on \<^verbatim>\<open>undefined\<close> throws.
\<close>

definition requestChanges ::
  "('d, 'c) Automerge \<Rightarrow> Clock option \<Rightarrow> ('d, 'c) DocumentSync \<Rightarrow> (unit, 'd, 'c) outcome" where
  "requestChanges A c s =
     (case orClockFromDoc A c s of
        None \<Rightarrow> (Inl (TypeError ERR_UNDEFINED), s)
      | Some clk \<Rightarrow> (Inr (), send \<lparr>Message.clock = Some clk, changes = None\<rparr> s))"

definition maybeRequestChanges ::
  "('d, 'c) Automerge \<Rightarrow> Clock option \<Rightarrow> ('d, 'c) DocumentSync \<Rightarrow> (unit, 'd, 'c) outcome" where
  "maybeRequestChanges A c s =
     (let c' = orClockFromDoc A c s;
          ourClock = getClock Ours s
      in case (c', ourClock) of
           (Some clk, Some oc) \<Rightarrow>
             if \<not> lessOrEqual clk oc then requestChanges A (Some clk) s else (Inr (), s)
         | _ \<Rightarrow> (Inl (TypeError ERR_UNDEFINED), s))"

definition sendChanges ::
  "('d, 'c) Automerge \<Rightarrow> 'c list \<Rightarrow> ('d, 'c) DocumentSync \<Rightarrow> (unit, 'd, 'c) outcome" where
  "sendChanges A cs s =
     (case getClockFromDoc A s of
        None \<Rightarrow> (Inl (TypeError ERR_UNDEFINED), s)
      | Some clk \<Rightarrow>
          (Inr (), updateClock A Ours None (send \<lparr>Message.clock = Some clk, changes = Some cs\<rparr> s)))"

definition maybeSendChanges ::
  "('d, 'c) Automerge \<Rightarrow> ('d, 'c) DocumentSync \<Rightarrow> (unit, 'd, 'c) outcome" where
  "maybeSendChanges A s =
     (case getClock Theirs s of
        None \<Rightarrow> (Inr (), s)
      | Some theirClock \<Rightarrow>
          (let ourState = getState s;
               cs = getMissingChanges A ourState theirClock
           in if length cs > 0 then sendChanges A cs s else (Inr (), s)))"

text \<open>
  \<^verbatim>\<open>docChanged\<close>, the callback the watchable document calls after every change.
\<close>

definition docChanged ::
  "('d, 'c) Automerge \<Rightarrow> ('d, 'c) DocumentSync \<Rightarrow> (unit, 'd, 'c) outcome" where
  "docChanged A s =
     (let c = getClockFromDoc A s
      in andThen (validateDoc c s) (\<lambda>_ s1.
         andThen (maybeSendChanges A s1) (\<lambda>_ s2.
         andThen (maybeRequestChanges A c s2) (\<lambda>_ s3.
         (Inr (), updateClock A Ours c s3)))))"

subsection \<open>The watchable document\<close>

text \<open>
  Automerge's \<^verbatim>\<open>WatchableDoc\<close>: \<^verbatim>\<open>registerHandler\<close> adds the function to the set of
  handlers and \<^verbatim>\<open>unregisterHandler\<close> removes it, both by the function's identity;
  \<^verbatim>\<open>set(doc)\<close> stores the document and then calls every handler; \<^verbatim>\<open>applyChanges\<close> computes
  the new document, passes it to \<^verbatim>\<open>set\<close> and returns it. A handler that throws ends the
  call of \<^verbatim>\<open>set\<close>.
\<close>

definition registerHandler :: "nat \<Rightarrow> 'd WatchableDoc \<Rightarrow> 'd WatchableDoc" where
  "registerHandler h w =
     w\<lparr>handlers := (if h \<in> set (handlers w) then handlers w else handlers w @ [h])\<rparr>"

definition unregisterHandler :: "nat \<Rightarrow> 'd WatchableDoc \<Rightarrow> 'd WatchableDoc" where
  "unregisterHandler h w = w\<lparr>handlers := removeAll h (handlers w)\<rparr>"

fun callHandlers ::
  "('d, 'c) Automerge \<Rightarrow> nat list \<Rightarrow> ('d, 'c) DocumentSync \<Rightarrow> (unit, 'd, 'c) outcome" where
  "callHandlers A [] s = (Inr (), s)"
| "callHandlers A (h # hs) s = andThen (docChanged A s) (\<lambda>_ s'. callHandlers A hs s')"

definition WatchableDoc_set ::
  "('d, 'c) Automerge \<Rightarrow> 'd \<Rightarrow> ('d, 'c) DocumentSync \<Rightarrow> (unit, 'd, 'c) outcome" where
  "WatchableDoc_set A d s =
     (let s1 = s\<lparr>watchableDoc := (watchableDoc s)\<lparr>doc := d\<rparr>\<rparr>
      in callHandlers A (handlers (watchableDoc s1)) s1)"

definition WatchableDoc_applyChanges ::
  "('d, 'c) Automerge \<Rightarrow> 'c list \<Rightarrow> ('d, 'c) DocumentSync \<Rightarrow> ('d, 'd, 'c) outcome" where
  "WatchableDoc_applyChanges A cs s =
     (let newDoc = applyChanges A (doc (watchableDoc s)) cs
      in andThen (WatchableDoc_set A newDoc s) (\<lambda>_ s'. (Inr newDoc, s')))"

subsection \<open>The public methods\<close>

text \<open>\<^verbatim>\<open>this.docChanged.bind(this)\<close>: a new function object, with the next unused identity.\<close>

definition bind_docChanged :: "('d, 'c) DocumentSync \<Rightarrow> nat \<times> ('d, 'c) DocumentSync" where
  "bind_docChanged s = (bound s, s\<lparr>bound := bound s + 1\<rparr>)"

definition DocumentSync_open ::
  "('d, 'c) Automerge \<Rightarrow> ('d, 'c) DocumentSync \<Rightarrow> (unit, 'd, 'c) outcome" where
  "DocumentSync_open A s =
     (let c = getClockFromDoc A s
      in andThen (validateDoc c s) (\<lambda>_ s1.
         andThen (requestChanges A c s1) (\<lambda>_ s2.
           (let s3 = updateClock A Ours c s2;
                (h, s4) = bind_docChanged s3
            in (Inr (), s4\<lparr>watchableDoc := registerHandler h (watchableDoc s4)\<rparr>)))))"

definition DocumentSync_close :: "('d, 'c) DocumentSync \<Rightarrow> (unit, 'd, 'c) outcome" where
  "DocumentSync_close s =
     (let (h, s1) = bind_docChanged s
      in (Inr (), s1\<lparr>watchableDoc := unregisterHandler h (watchableDoc s1)\<rparr>))"

definition receive ::
  "('d, 'c) Automerge \<Rightarrow> 'c Message \<Rightarrow> ('d, 'c) DocumentSync \<Rightarrow> ('d, 'd, 'c) outcome" where
  "receive A msg s =
     (let s1 = (case Message.clock msg of
                  Some c \<Rightarrow> updateClock A Theirs (Some c) s
                | None \<Rightarrow> s)
      in andThen
           (case changes msg of
              Some cs \<Rightarrow> andThen (WatchableDoc_applyChanges A cs s1) (\<lambda>_ s'. (Inr (), s'))
            | None \<Rightarrow> maybeSendChanges A s1)
           (\<lambda>_ s2. (Inr (doc (watchableDoc s2)), s2)))"

subsection \<open>Sequences of operations\<close>

text \<open>
  The operations on a DocumentSync: the public methods, the \<^verbatim>\<open>docChanged\<close> callback, and
  a change of the document by its owner (\<^verbatim>\<open>watchableDoc.set(doc)\<close>), which calls the
  subscribed handlers. A sequence stops at the first operation that throws.
\<close>

datatype ('d, 'c) operation = Open | Close | Receive "'c Message" | DocChanged | SetDoc 'd

fun perform ::
  "('d, 'c) Automerge \<Rightarrow> ('d, 'c) operation \<Rightarrow> ('d, 'c) DocumentSync \<Rightarrow> (unit, 'd, 'c) outcome" where
  "perform A Open s = DocumentSync_open A s"
| "perform A Close s = DocumentSync_close s"
| "perform A (Receive msg) s = andThen (receive A msg s) (\<lambda>_ s'. (Inr (), s'))"
| "perform A DocChanged s = docChanged A s"
| "perform A (SetDoc d) s = WatchableDoc_set A d s"

fun performAll ::
  "('d, 'c) Automerge \<Rightarrow> ('d, 'c) operation list \<Rightarrow> ('d, 'c) DocumentSync \<Rightarrow> (unit, 'd, 'c) outcome" where
  "performAll A [] s = (Inr (), s)"
| "performAll A (x # xs) s = andThen (perform A x s) (\<lambda>_ s'. performAll A xs s')"

text \<open>The value of the \<^verbatim>\<open>ours\<close> clock, as \<^verbatim>\<open>getClock(ours)\<close> reads it.\<close>

definition oursClock :: "('d, 'c) DocumentSync \<Rightarrow> Clock" where
  "oursClock s = (case getClock Ours s of Some c \<Rightarrow> c | None \<Rightarrow> Mapping.empty)"

subsection \<open>A small instance of the library\<close>

text \<open>
  To run the model on concrete inputs: a change is an actor with a sequence number, a
  document is the list of the changes applied to it, its clock holds the largest sequence
  number of each actor, the changes missing from a clock are those beyond it, and applying
  changes appends the new ones.
\<close>

type_synonym toyChange = "string \<times> nat"

definition toyClock :: "toyChange list \<Rightarrow> Clock" where
  "toyClock d = fold (\<lambda>(a, n) c. Mapping.update a (max n (Mapping.lookup_default 0 c a)) c) d Mapping.empty"

definition toy :: "(toyChange list, toyChange) Automerge" where
  "toy = \<lparr>clockOf = (\<lambda>d. Some (toyClock d)),
          getMissingChanges = (\<lambda>d c. filter (\<lambda>(a, n). Mapping.lookup_default 0 c a < n) d),
          applyChanges = (\<lambda>d cs. d @ filter (\<lambda>x. x \<notin> set d) cs)\<rparr>"

section \<open>StoreManager\<close>

text \<open>
  \<^verbatim>\<open>Peer\<close> (of the signal client) with its \<^verbatim>\<open>id\<close>; \<^verbatim>\<open>peer.get(discoveryKey)\<close> is the socket
  of that peer for that key. A \<^verbatim>\<open>Connection\<close> is an object made by \<^verbatim>\<open>new Connection(repo,
  socket, dispatch)\<close>: its identity and its socket.
\<close>

record Peer =
  peerId :: string

type_synonym Socket = "string \<times> string"

definition peer_get :: "Peer \<Rightarrow> string \<Rightarrow> Socket" where
  "peer_get peer discoveryKey = (peerId peer, discoveryKey)"

record Connection =
  connId :: nat
  socket :: Socket

text \<open>
  The state of a \<^verbatim>\<open>StoreManager\<close>: \<^verbatim>\<open>repo\<close> and \<^verbatim>\<open>store\<close> (\<open>None\<close> when absent or deleted),
  the object \<^verbatim>\<open>connections\<close> (its keys in insertion order), and the listeners of the
  \<^verbatim>\<open>EventEmitter\<close> it extends (event name and the listener's identity). What it does to
  the outside is recorded: the connections whose \<^verbatim>\<open>close()\<close> was called (\<open>closed\<close>), the
  calls of listeners (\<open>notified\<close>: the listener and the event), the peers on which a
  \<^verbatim>\<open>'close'\<close> listener was installed (\<open>peerCloseListeners\<close>), and the number of Connection
  objects constructed (\<open>constructed\<close>).
\<close>

record StoreManager =
  repo :: "nat option"
  store :: "nat option"
  connections :: "(string \<times> Connection) list"
  listeners :: "(string \<times> nat) list"
  closed :: "Connection list"
  notified :: "(nat \<times> string) list"
  peerCloseListeners :: "string list"
  constructed :: nat

definition on :: "string \<Rightarrow> nat \<Rightarrow> StoreManager \<Rightarrow> StoreManager" where
  "on event listener s = s\<lparr>listeners := listeners s @ [(event, listener)]\<rparr>"

definition emit :: "string \<Rightarrow> StoreManager \<Rightarrow> StoreManager" where
  "emit event s =
     s\<lparr>notified := notified s @
         map (\<lambda>(e, l). (l, event)) (filter (\<lambda>(e, l). e = event) (listeners s))\<rparr>"

definition removeAllListeners :: "StoreManager \<Rightarrow> StoreManager" where
  "removeAllListeners s = s\<lparr>listeners := []\<rparr>"

text \<open>
  \<^verbatim>\<open>Object.keys\<close> of the connections: the keys in insertion order, which is JavaScript's
  order for keys that are not integer-like, as peer ids are.
\<close>

definition Object_keys :: "(string \<times> Connection) list \<Rightarrow> string list" where
  "Object_keys obj = map fst obj"

definition connectionCount :: "StoreManager \<Rightarrow> nat" where
  "connectionCount s = length (Object_keys (connections s))"

definition Connection_close :: "Connection \<Rightarrow> StoreManager \<Rightarrow> StoreManager" where
  "Connection_close c s = s\<lparr>closed := closed s @ [c]\<rparr>"

definition addPeer :: "Peer \<Rightarrow> string \<Rightarrow> StoreManager \<Rightarrow> StoreManager" where
  "addPeer peer discoveryKey s =
     (if store s = None \<or> repo s = None then s
      else
        (let sock = peer_get peer discoveryKey;
             connection = \<lparr>connId = constructed s, socket = sock\<rparr>;
             s1 = s\<lparr>constructed := constructed s + 1\<rparr>;
             s2 = s1\<lparr>connections := AList.update (peerId peer) connection (connections s1)\<rparr>;
             s3 = emit ''peer'' s2
         in s3\<lparr>peerCloseListeners := peerCloseListeners s3 @ [peerId peer]\<rparr>))"

definition removePeer :: "string \<Rightarrow> StoreManager \<Rightarrow> StoreManager" where
  "removePeer p s =
     (let s1 = (case map_of (connections s) p of
                  Some c \<Rightarrow> Connection_close c s
                | None \<Rightarrow> s)
      in s1\<lparr>connections := AList.delete p (connections s1)\<rparr>)"

text \<open>
  \<^verbatim>\<open>close\<close>, run without interleaving: the promises it awaits are already resolved
  (\<^verbatim>\<open>removePeer\<close> returns nothing). What other code does while \<^verbatim>\<open>close\<close> is suspended at
  its \<^verbatim>\<open>await\<close> (a listener registered then would receive the \<^verbatim>\<open>close\<close> event) is
  outside this model.
\<close>

definition StoreManager_close :: "StoreManager \<Rightarrow> StoreManager" where
  "StoreManager_close s =
     (let s1 = removeAllListeners s;
          s2 = fold removePeer (Object_keys (connections s1)) s1;
          s3 = s2\<lparr>connections := []\<rparr>;
          s4 = s3\<lparr>repo := None\<rparr>;
          s5 = s4\<lparr>store := None\<rparr>
      in emit ''close'' s5)"

section \<open>Concrete inputs\<close>

text \<open>The clock \<^verbatim>\<open>{a: 1}\<close>, and the clock \<^verbatim>\<open>{a: 0}\<close> with an entry equal to zero.\<close>

definition clockA1 :: Clock where
  "clockA1 = Mapping.update ''a'' 1 Mapping.empty"

definition clockA0 :: Clock where
  "clockA0 = Mapping.update ''a'' 0 Mapping.empty"

text \<open>A new DocumentSync over an empty document, and one over a document with one change.\<close>

definition emptySync :: "(toyChange list, toyChange) DocumentSync" where
  "emptySync = constructor \<lparr>doc = [], handlers = []\<rparr>"

definition exampleSync :: "(toyChange list, toyChange) DocumentSync" where
  "exampleSync = constructor \<lparr>doc = [(''a'', 1)], handlers = []\<rparr>"

text \<open>A pull request carrying the empty clock.\<close>

definition pullMessage :: "toyChange Message" where
  "pullMessage = \<lparr>Message.clock = Some Mapping.empty, changes = None\<rparr>"

text \<open>A push of one change of the actor \<^verbatim>\<open>b\<close>, with the sender's clock.\<close>

definition pushMessage :: "toyChange Message" where
  "pushMessage = \<lparr>Message.clock = Some (Mapping.update ''b'' 1 Mapping.empty), changes = Some [(''b'', 1)]\<rparr>"

text \<open>
  A StoreManager with its repo and store, one connection recorded for the peer \<^verbatim>\<open>p\<close>, and
  one listener (number 7) registered for the \<^verbatim>\<open>close\<close> event.
\<close>

definition connection0 :: Connection where
  "connection0 = \<lparr>connId = 0, socket = (''p'', ''k'')\<rparr>"

definition exampleManager :: StoreManager where
  "exampleManager =
     \<lparr>repo = Some 0, store = Some 0, connections = [(''p'', connection0)],
      listeners = [(''close'', 7)], closed = [], notified = [], peerCloseListeners = [''p''],
      constructed = 1\<rparr>"

definition peerP :: Peer where
  "peerP = \<lparr>peerId = ''p''\<rparr>"

section \<open>Predicates of the statements and proofs\<close>

text \<open>A clock none of whose entries is zero.\<close>

definition positiveEntries :: "Clock \<Rightarrow> bool" where
  "positiveEntries c = (\<forall>k \<in> Mapping.keys c. Mapping.lookup_default 0 c k \<noteq> 0)"

text \<open>
  What the private methods leave alone: the watchable document, \<^verbatim>\<open>theirs\<close> and the bound
  functions stay as they are, and \<^verbatim>\<open>ours\<close> does not shrink.
\<close>

definition frame :: "('d, 'c) DocumentSync \<Rightarrow> ('d, 'c) DocumentSync \<Rightarrow> bool" where
  "frame s s' =
     (watchableDoc s' = watchableDoc s \<and> theirs (clock s') = theirs (clock s) \<and>
      bound s' = bound s \<and> lessOrEqual (oursClock s) (oursClock s'))"

text \<open>The state after the first statement of \<^verbatim>\<open>receive\<close>: their clock is recorded.\<close>

definition receive_s1 ::
  "('d, 'c) Automerge \<Rightarrow> 'c Message \<Rightarrow> ('d, 'c) DocumentSync \<Rightarrow> ('d, 'c) DocumentSync" where
  "receive_s1 A msg s =
     (case Message.clock msg of Some c \<Rightarrow> updateClock A Theirs (Some c) s | None \<Rightarrow> s)"

text \<open>The \<^verbatim>\<open>ours\<close> clock does not shrink from the first state to the second.\<close>

definition oursGrows :: "('d, 'c) DocumentSync \<Rightarrow> ('d, 'c) DocumentSync \<Rightarrow> bool" where
  "oursGrows s s' = lessOrEqual (oursClock s) (oursClock s')"

section \<open>Properties\<close>

subsection \<open>Clocks and the private methods\<close>

lemma lessOrEqual_pointwise:
  "lessOrEqual a b = (\<forall>k. Mapping.lookup_default 0 a k \<le> Mapping.lookup_default 0 b k)"
proof
  assume le: "lessOrEqual a b"
  show "\<forall>k. Mapping.lookup_default 0 a k \<le> Mapping.lookup_default 0 b k"
  proof
    fix k
    show "Mapping.lookup_default 0 a k \<le> Mapping.lookup_default 0 b k"
    proof (cases "k \<in> Mapping.keys a")
      case True
      with le show ?thesis by (simp add: lessOrEqual_def)
    next
      case False
      then have "Mapping.lookup a k = None"
        by (simp add: keys_dom_lookup domIff)
      then show ?thesis by (simp add: lookup_default_def)
    qed
  qed
next
  assume "\<forall>k. Mapping.lookup_default 0 a k \<le> Mapping.lookup_default 0 b k"
  then show "lessOrEqual a b" by (simp add: lessOrEqual_def)
qed

lemma lessOrEqual_refl: "lessOrEqual a a"
  by (simp add: lessOrEqual_def)

lemma lessOrEqual_trans: "lessOrEqual a b \<Longrightarrow> lessOrEqual b c \<Longrightarrow> lessOrEqual a c"
  unfolding lessOrEqual_pointwise by (meson order_trans)

lemma lookup_default_mergeWith:
  "Mapping.lookup_default 0 (mergeWith largestWins a b) k =
     max (Mapping.lookup_default 0 a k) (Mapping.lookup_default 0 b k)"
  by (simp add: mergeWith_def largestWins_def lookup_default_def lookup_combine
      split: option.splits)

lemma lessOrEqual_mergeWith: "lessOrEqual a (mergeWith largestWins a b)"
  by (simp add: lessOrEqual_pointwise lookup_default_mergeWith)

lemma getClock_Ours: "getClock Ours s = Some (oursClock s)"
  by (simp add: getClock_def oursClock_def split: option.splits)

lemma frame_refl: "frame s s"
  by (simp add: frame_def lessOrEqual_refl)

lemma frame_trans: "frame s s' \<Longrightarrow> frame s' s'' \<Longrightarrow> frame s s''"
  by (auto simp: frame_def intro: lessOrEqual_trans)

lemma andThen_Inl: "andThen (Inl e, s) f = (Inl e, s)"
  by (simp add: andThen_def)

lemma andThen_Inr: "andThen (Inr x, s) f = f x s"
  by (simp add: andThen_def)

lemma frame_andThen:
  assumes "frame s (snd r)" and "\<And>x s'. frame s s' \<Longrightarrow> frame s (snd (f x s'))"
  shows "frame s (snd (andThen r f))"
proof (cases r)
  case (Pair a s')
  with assms show ?thesis by (cases a) (auto simp: andThen_Inl andThen_Inr)
qed

lemma oursClock_updateClock_Ours:
  "oursClock (updateClock A Ours c s) =
     mergeWith largestWins (oursClock s) (case orClockFromDoc A c s of Some x \<Rightarrow> x | None \<Rightarrow> Mapping.empty)"
  by (simp add: updateClock_def oursClock_def getClock_def Let_def split: option.splits)

lemma frame_updateClock_Ours: "frame s (updateClock A Ours c s)"
  by (simp add: frame_def oursClock_updateClock_Ours lessOrEqual_mergeWith)
     (simp add: updateClock_def Let_def)

lemma frame_send: "frame s (send m s)"
  by (simp add: frame_def send_def oursClock_def getClock_def lessOrEqual_refl)

lemma frame_validateDoc: "frame s (snd (validateDoc c s))"
  by (simp add: validateDoc_def frame_refl Let_def split: option.splits)

lemma frame_requestChanges: "frame s (snd (requestChanges A c s))"
  by (simp add: requestChanges_def frame_refl frame_send split: option.splits)

lemma frame_maybeRequestChanges: "frame s (snd (maybeRequestChanges A c s))"
  by (simp add: maybeRequestChanges_def frame_refl frame_requestChanges Let_def split: option.splits)

lemma frame_sendChanges: "frame s (snd (sendChanges A cs s))"
  by (auto simp: sendChanges_def frame_refl split: option.splits
      intro: frame_trans[OF frame_send frame_updateClock_Ours])

lemma frame_maybeSendChanges: "frame s (snd (maybeSendChanges A s))"
  by (simp add: maybeSendChanges_def frame_refl frame_sendChanges Let_def split: option.splits)

lemma frame_docChanged: "frame s (snd (docChanged A s))"
  unfolding docChanged_def Let_def
  by (intro frame_andThen frame_validateDoc)
     (auto intro: frame_trans frame_maybeSendChanges frame_maybeRequestChanges frame_updateClock_Ours)

lemma frame_callHandlers: "frame s (snd (callHandlers A hs s))"
proof (induction hs arbitrary: s)
  case Nil
  show ?case by (simp add: frame_refl)
next
  case (Cons h hs)
  show ?case
    by (simp, intro frame_andThen frame_docChanged) (rule frame_trans[OF _ Cons.IH])
qed

subsection \<open>The claims on clocks and on the private methods\<close>

lemma clockA0_not_empty: "clockA0 \<noteq> Mapping.empty"
proof -
  have "Mapping.keys clockA0 \<noteq> Mapping.keys (Mapping.empty :: Clock)"
    by (simp add: clockA0_def)
  then show ?thesis by metis
qed

text \<open>
  Claim C7 as stated fails: the clock \<^verbatim>\<open>{a: 0}\<close> and the empty clock are below each other,
  and they are different mappings.
\<close>
theorem lessOrEqual_antisym_counterexample:
  "lessOrEqual clockA0 Mapping.empty \<and> lessOrEqual Mapping.empty clockA0 \<and>
   clockA0 \<noteq> Mapping.empty"
  using clockA0_not_empty
  by (simp add: lessOrEqual_def clockA0_def lookup_default_def)

text \<open>
  Claim C7, as amended. \<^verbatim>\<open>lessOrEqual(a, b)\<close> and \<^verbatim>\<open>lessOrEqual(b, a)\<close> both hold exactly when
  \<open>a\<close> and \<open>b\<close> give every actor the same sequence number, an absent key read as zero.
  So equal clocks are below each other, and for clocks none of whose entries is zero, being
  below each other is the same as being equal as mappings.
\<close>
theorem lessOrEqual_both_ways:
  "((lessOrEqual a b \<and> lessOrEqual b a) =
      (\<forall>k. Mapping.lookup_default 0 a k = Mapping.lookup_default 0 b k)) \<and>
   (a = b \<longrightarrow> lessOrEqual a b \<and> lessOrEqual b a) \<and>
   (positiveEntries a \<and> positiveEntries b \<longrightarrow>
      (lessOrEqual a b \<and> lessOrEqual b a) = (a = b))"
proof -
  have pw: "(lessOrEqual a b \<and> lessOrEqual b a) =
      (\<forall>k. Mapping.lookup_default 0 a k = Mapping.lookup_default 0 b k)"
    unfolding lessOrEqual_pointwise by (auto simp: order_antisym)
  have eq: "a = b" if pos: "positiveEntries a" "positiveEntries b"
    and le: "lessOrEqual a b" "lessOrEqual b a"
  proof (rule mapping_eqI)
    fix k
    from le pw have "Mapping.lookup_default 0 a k = Mapping.lookup_default 0 b k"
      by simp
    with pos show "Mapping.lookup a k = Mapping.lookup b k"
      by (auto simp: positiveEntries_def lookup_default_def keys_dom_lookup domIff
          split: option.splits)
  qed
  from pw eq show ?thesis
    by (auto simp: lessOrEqual_refl)
qed

text \<open>The clock \<^verbatim>\<open>{a: 1}\<close> has no zero entry; it is below itself and equal to itself.\<close>
theorem lessOrEqual_both_ways_witness:
  "positiveEntries clockA1 \<and> positiveEntries clockA1 \<and>
   (lessOrEqual clockA1 clockA1 \<and> lessOrEqual clockA1 clockA1) = (clockA1 = clockA1)"
proof -
  have pos: "positiveEntries clockA1"
    by (simp add: positiveEntries_def clockA1_def lookup_default_def)
  with lessOrEqual_both_ways [of clockA1 clockA1] show ?thesis by blast
qed

text \<open>
  Claim C2. \<^verbatim>\<open>validateDoc(c)\<close> throws the TypeError with \<^verbatim>\<open>ERR_NOCLOCK\<close> exactly when \<open>c\<close>
  is absent; for a clock that is present it throws the RangeError with \<^verbatim>\<open>ERR_OLDCLOCK\<close>
  exactly when \<^verbatim>\<open>lessOrEqual(ours, c)\<close> is false, and returns normally exactly when it is
  true; in every case the state of the DocumentSync is left as it was.
\<close>
theorem validateDoc_cases:
  "(fst (validateDoc c s) = Inl (TypeError ERR_NOCLOCK) \<longleftrightarrow> c = None) \<and>
   (\<forall>clk. c = Some clk \<longrightarrow>
      (fst (validateDoc c s) = Inl (RangeError ERR_OLDCLOCK) \<longleftrightarrow> \<not> lessOrEqual (oursClock s) clk) \<and>
      (fst (validateDoc c s) = Inr () \<longleftrightarrow> lessOrEqual (oursClock s) clk)) \<and>
   snd (validateDoc c s) = s"
  by (cases c) (simp_all add: validateDoc_def getClock_Ours)

lemma oursClock_exampleSync: "oursClock exampleSync = Mapping.empty"
  by (simp add: oursClock_def getClock_def exampleSync_def constructor_def)

text \<open>A new DocumentSync accepts the clock \<^verbatim>\<open>{a: 1}\<close>: the empty \<^verbatim>\<open>ours\<close> is below it.\<close>
theorem validateDoc_cases_witness:
  "fst (validateDoc (Some clockA1) exampleSync) = Inr () \<and>
   lessOrEqual (oursClock exampleSync) clockA1 \<and>
   snd (validateDoc (Some clockA1) exampleSync) = exampleSync"
proof -
  have le: "lessOrEqual (oursClock exampleSync) clockA1"
    by (simp add: oursClock_exampleSync lessOrEqual_def)
  with validateDoc_cases [of "Some clockA1" exampleSync] show ?thesis by blast
qed

text \<open>
  Claim C6. \<^verbatim>\<open>maybeRequestChanges(c)\<close> returns normally; it hands the message
  \<^verbatim>\<open>{clock: c}\<close>, without changes, to \<^verbatim>\<open>send\<close> when \<^verbatim>\<open>lessOrEqual(c, ours)\<close> is false, and
  otherwise sends nothing and changes nothing.
\<close>
theorem maybeRequestChanges_sends:
  "maybeRequestChanges A (Some c) s =
     (Inr (), if \<not> lessOrEqual c (oursClock s)
              then s\<lparr>sent := sent s @ [\<lparr>Message.clock = Some c, changes = None\<rparr>]\<rparr>
              else s)"
  by (simp add: maybeRequestChanges_def requestChanges_def orClockFromDoc_def getClock_Ours
      send_def)

text \<open>On a new DocumentSync the clock \<^verbatim>\<open>{a: 1}\<close> is not below \<^verbatim>\<open>ours\<close>: the request is sent.\<close>
theorem maybeRequestChanges_sends_witness:
  "\<not> lessOrEqual clockA1 (oursClock exampleSync) \<and>
   sent (snd (maybeRequestChanges toy (Some clockA1) exampleSync)) =
     [\<lparr>Message.clock = Some clockA1, changes = None\<rparr>]"
proof -
  have nle: "\<not> lessOrEqual clockA1 (oursClock exampleSync)"
    by (simp add: oursClock_exampleSync lessOrEqual_def clockA1_def lookup_default_def)
  have "sent exampleSync = []"
    by (simp add: exampleSync_def constructor_def)
  with nle maybeRequestChanges_sends [of toy clockA1 exampleSync] show ?thesis by simp
qed

lemma maybeSendChanges_theirs_unknown:
  "getClock Theirs s = None \<Longrightarrow> maybeSendChanges A s = (Inr (), s)"
  by (simp add: maybeSendChanges_def)

text \<open>
  Claim C4, on the code. The constructor sets \<^verbatim>\<open>ours\<close> to the empty clock and \<^verbatim>\<open>theirs\<close>
  to the empty clock too, not to \<^verbatim>\<open>undefined\<close>: \<^verbatim>\<open>getClock(theirs)\<close> of a new DocumentSync is
  the empty clock. So \<^verbatim>\<open>maybeSendChanges\<close> does not return early on a new DocumentSync: the
  first \<^verbatim>\<open>docChanged\<close> over a document with one change sends that change, where with
  \<^verbatim>\<open>theirs\<close> unknown it would send the bare clock only.
\<close>
theorem constructor_theirs_is_empty_clock:
  "ours (clock (constructor w)) = Some Mapping.empty \<and>
   theirs (clock (constructor w)) = Some Mapping.empty \<and>
   getClock Theirs (constructor w) = Some Mapping.empty \<and>
   sent (snd (docChanged toy exampleSync)) =
     [\<lparr>Message.clock = Some clockA1, changes = Some [(''a'', 1)]\<rparr>] \<and>
   sent (snd (docChanged toy (exampleSync\<lparr>clock := (clock exampleSync)\<lparr>theirs := None\<rparr>\<rparr>))) =
     [\<lparr>Message.clock = Some clockA1, changes = None\<rparr>]"
proof -
  have a: "sent (snd (docChanged toy exampleSync)) =
     [\<lparr>Message.clock = Some clockA1, changes = Some [(''a'', 1)]\<rparr>]"
    by code_simp
  have b: "sent (snd (docChanged toy (exampleSync\<lparr>clock := (clock exampleSync)\<lparr>theirs := None\<rparr>\<rparr>))) =
     [\<lparr>Message.clock = Some clockA1, changes = None\<rparr>]"
    by code_simp
  from a b show ?thesis
    by (simp add: constructor_def getClock_def)
qed

subsection \<open>receive\<close>

lemma andThen_snd_cases:
  assumes "P (snd r)" and "\<And>x s'. P s' \<Longrightarrow> P (snd (f x s'))"
  shows "P (snd (andThen r f))"
proof (cases r)
  case (Pair a s')
  with assms show ?thesis by (cases a) (auto simp: andThen_Inl andThen_Inr)
qed

lemma snd_andThen_return: "snd (andThen r (\<lambda>_ s'. (Inr (g s'), s'))) = snd r"
  by (cases r; cases "fst r") (auto simp: andThen_def)

lemma fst_andThen_return:
  "fst (andThen r (\<lambda>_ s'. (Inr (g s'), s'))) =
     (case fst r of Inl e \<Rightarrow> Inl e | Inr _ \<Rightarrow> Inr (g (snd r)))"
  by (cases r; cases "fst r") (auto simp: andThen_def)

lemma watchableDoc_updateClock: "watchableDoc (updateClock A w c s) = watchableDoc s"
  by (simp add: updateClock_def Let_def)

lemma sent_updateClock: "sent (updateClock A w c s) = sent s"
  by (simp add: updateClock_def Let_def)

lemma theirs_updateClock_Theirs:
  "theirs (clock (updateClock A Theirs (Some c) s)) =
     Some (mergeWith largestWins (case theirs (clock s) of Some t \<Rightarrow> t | None \<Rightarrow> Mapping.empty) c)"
  by (simp add: updateClock_def orClockFromDoc_def Let_def)

lemma ours_updateClock_Theirs: "ours (clock (updateClock A Theirs c s)) = ours (clock s)"
  by (simp add: updateClock_def Let_def)

lemma oursClock_cong: "ours (clock s') = ours (clock s) \<Longrightarrow> oursClock s' = oursClock s"
  by (simp add: oursClock_def getClock_def)

lemma frame_WatchableDoc_set:
  "frame (s\<lparr>watchableDoc := (watchableDoc s)\<lparr>doc := d\<rparr>\<rparr>) (snd (WatchableDoc_set A d s))"
  by (simp add: WatchableDoc_set_def Let_def frame_callHandlers)

lemma snd_WatchableDoc_applyChanges:
  "snd (WatchableDoc_applyChanges A cs s) =
     snd (WatchableDoc_set A (applyChanges A (doc (watchableDoc s)) cs) s)"
  by (simp add: WatchableDoc_applyChanges_def Let_def snd_andThen_return)

lemma fst_WatchableDoc_applyChanges:
  "fst (WatchableDoc_applyChanges A cs s) =
     (case fst (WatchableDoc_set A (applyChanges A (doc (watchableDoc s)) cs) s) of
        Inl e \<Rightarrow> Inl e | Inr _ \<Rightarrow> Inr (applyChanges A (doc (watchableDoc s)) cs))"
  by (simp add: WatchableDoc_applyChanges_def Let_def fst_andThen_return)

lemma WatchableDoc_set_no_handlers:
  "handlers (watchableDoc s) = [] \<Longrightarrow>
   WatchableDoc_set A d s = (Inr (), s\<lparr>watchableDoc := (watchableDoc s)\<lparr>doc := d\<rparr>\<rparr>)"
  by (simp add: WatchableDoc_set_def Let_def)

lemma doc_after_applyChanges:
  "doc (watchableDoc (snd (WatchableDoc_applyChanges A cs s))) = applyChanges A (doc (watchableDoc s)) cs"
  using frame_WatchableDoc_set [where s = s and d = "applyChanges A (doc (watchableDoc s)) cs" and A = A]
  by (simp add: snd_WatchableDoc_applyChanges frame_def)

lemma theirs_after_applyChanges:
  "theirs (clock (snd (WatchableDoc_applyChanges A cs s))) = theirs (clock s)"
  using frame_WatchableDoc_set [where s = s and d = "applyChanges A (doc (watchableDoc s)) cs" and A = A]
  by (simp add: snd_WatchableDoc_applyChanges frame_def)

lemma maybeSendChanges_returns:
  "clockOf A (doc (watchableDoc s)) \<noteq> None \<Longrightarrow> fst (maybeSendChanges A s) = Inr ()"
  by (auto simp: maybeSendChanges_def sendChanges_def getClockFromDoc_def getState_def Let_def
      split: option.splits)

lemma receive_alt:
  "receive A m s =
     andThen
       (case changes m of
          Some cs \<Rightarrow> andThen (WatchableDoc_applyChanges A cs (receive_s1 A m s)) (\<lambda>_ s'. (Inr (), s'))
        | None \<Rightarrow> maybeSendChanges A (receive_s1 A m s))
       (\<lambda>_ s2. (Inr (doc (watchableDoc s2)), s2))"
  by (simp add: receive_def receive_s1_def Let_def split: option.splits)

lemma theirs_receive_s1:
  "theirs (clock (receive_s1 A m s)) =
     (case Message.clock m of
        Some c \<Rightarrow> Some (mergeWith largestWins (case theirs (clock s) of Some t \<Rightarrow> t | None \<Rightarrow> Mapping.empty) c)
      | None \<Rightarrow> theirs (clock s))"
  by (simp add: receive_s1_def theirs_updateClock_Theirs split: option.splits)

lemma watchableDoc_receive_s1: "watchableDoc (receive_s1 A m s) = watchableDoc s"
  by (simp add: receive_s1_def watchableDoc_updateClock split: option.splits)

lemma ours_receive_s1: "ours (clock (receive_s1 A m s)) = ours (clock s)"
  by (simp add: receive_s1_def ours_updateClock_Theirs split: option.splits)

lemma receive_pull:
  "changes m = None \<Longrightarrow>
   snd (receive A m s) = snd (maybeSendChanges A (receive_s1 A m s)) \<and>
   fst (receive A m s) =
     (case fst (maybeSendChanges A (receive_s1 A m s)) of
        Inl e \<Rightarrow> Inl e | Inr _ \<Rightarrow> Inr (doc (watchableDoc (snd (receive A m s)))))"
  by (simp add: receive_alt snd_andThen_return fst_andThen_return split: sum.splits)

lemma receive_push:
  "changes m = Some cs \<Longrightarrow>
   snd (receive A m s) = snd (WatchableDoc_applyChanges A cs (receive_s1 A m s)) \<and>
   fst (receive A m s) =
     (case fst (WatchableDoc_applyChanges A cs (receive_s1 A m s)) of
        Inl e \<Rightarrow> Inl e | Inr _ \<Rightarrow> Inr (doc (watchableDoc (snd (receive A m s)))))"
  by (simp add: receive_alt snd_andThen_return fst_andThen_return split: sum.splits)

text \<open>
  Claim C1. After \<^verbatim>\<open>receive(m)\<close>, \<^verbatim>\<open>theirs\<close> is the merge of the old \<^verbatim>\<open>theirs\<close> with the
  message's clock when the message has one, and the old \<^verbatim>\<open>theirs\<close> otherwise. When the
  message carries changes, they are applied by the watchable document's \<^verbatim>\<open>applyChanges\<close>:
  the document becomes the one the library computes from them, and \<^verbatim>\<open>receive\<close> throws
  exactly when that call does (it does not when no handler is subscribed). When the
  message carries no changes, \<^verbatim>\<open>maybeSendChanges\<close> runs instead, the document stays as it
  is, and \<^verbatim>\<open>receive\<close> throws exactly when \<^verbatim>\<open>maybeSendChanges\<close> does (it does not when the
  document has a clock). Whenever \<^verbatim>\<open>receive\<close> returns, it returns the document of the
  final state.
\<close>
theorem receive_steps:
  "let s1 = (case Message.clock m of Some c \<Rightarrow> updateClock A Theirs (Some c) s | None \<Rightarrow> s);
       r = receive A m s
   in theirs (clock (snd r)) =
        (case Message.clock m of
           Some c \<Rightarrow> Some (mergeWith largestWins
                            (case theirs (clock s) of Some t \<Rightarrow> t | None \<Rightarrow> Mapping.empty) c)
         | None \<Rightarrow> theirs (clock s)) \<and>
      (\<forall>cs. changes m = Some cs \<longrightarrow>
         snd r = snd (WatchableDoc_applyChanges A cs s1) \<and>
         doc (watchableDoc (snd r)) = applyChanges A (doc (watchableDoc s)) cs \<and>
         (\<forall>e. fst r = Inl e \<longleftrightarrow> fst (WatchableDoc_applyChanges A cs s1) = Inl e) \<and>
         (handlers (watchableDoc s) = [] \<longrightarrow> fst r = Inr (applyChanges A (doc (watchableDoc s)) cs))) \<and>
      (changes m = None \<longrightarrow>
         snd r = snd (maybeSendChanges A s1) \<and>
         doc (watchableDoc (snd r)) = doc (watchableDoc s) \<and>
         (\<forall>e. fst r = Inl e \<longleftrightarrow> fst (maybeSendChanges A s1) = Inl e) \<and>
         (clockOf A (doc (watchableDoc s)) \<noteq> None \<longrightarrow> fst r = Inr (doc (watchableDoc s)))) \<and>
      (\<forall>d. fst r = Inr d \<longrightarrow> d = doc (watchableDoc (snd r)))"
proof -
  let ?s1 = "receive_s1 A m s"
  let ?r = "receive A m s"
  have theirs: "theirs (clock (snd ?r)) = theirs (clock ?s1)"
  proof (cases "changes m")
    case None
    with frame_maybeSendChanges [of ?s1 A] show ?thesis
      by (simp add: receive_pull frame_def)
  next
    case (Some cs)
    then show ?thesis
      by (simp add: receive_push theirs_after_applyChanges)
  qed
  have push: "snd ?r = snd (WatchableDoc_applyChanges A cs ?s1) \<and>
         doc (watchableDoc (snd ?r)) = applyChanges A (doc (watchableDoc s)) cs \<and>
         (\<forall>e. fst ?r = Inl e \<longleftrightarrow> fst (WatchableDoc_applyChanges A cs ?s1) = Inl e) \<and>
         (handlers (watchableDoc s) = [] \<longrightarrow> fst ?r = Inr (applyChanges A (doc (watchableDoc s)) cs))"
    if c: "changes m = Some cs" for cs
  proof -
    note p = receive_push [OF c, of A s]
    have d: "doc (watchableDoc (snd ?r)) = applyChanges A (doc (watchableDoc s)) cs"
      using p by (simp add: doc_after_applyChanges watchableDoc_receive_s1)
    have e: "\<forall>e. fst ?r = Inl e \<longleftrightarrow> fst (WatchableDoc_applyChanges A cs ?s1) = Inl e"
      using p by (auto split: sum.splits)
    have h: "fst ?r = Inr (applyChanges A (doc (watchableDoc s)) cs)"
      if "handlers (watchableDoc s) = []"
      using that p d
      by (simp add: fst_WatchableDoc_applyChanges WatchableDoc_set_no_handlers
          watchableDoc_receive_s1)
    from p d e h show ?thesis by simp
  qed
  have pull: "snd ?r = snd (maybeSendChanges A ?s1) \<and>
         doc (watchableDoc (snd ?r)) = doc (watchableDoc s) \<and>
         (\<forall>e. fst ?r = Inl e \<longleftrightarrow> fst (maybeSendChanges A ?s1) = Inl e) \<and>
         (clockOf A (doc (watchableDoc s)) \<noteq> None \<longrightarrow> fst ?r = Inr (doc (watchableDoc s)))"
    if c: "changes m = None"
  proof -
    note p = receive_pull [OF c, of A s]
    have d: "doc (watchableDoc (snd ?r)) = doc (watchableDoc s)"
      using p frame_maybeSendChanges [of ?s1 A]
      by (simp add: frame_def watchableDoc_receive_s1)
    have e: "\<forall>e. fst ?r = Inl e \<longleftrightarrow> fst (maybeSendChanges A ?s1) = Inl e"
      using p by (auto split: sum.splits)
    have h: "fst ?r = Inr (doc (watchableDoc s))"
      if "clockOf A (doc (watchableDoc s)) \<noteq> None"
      using that p d maybeSendChanges_returns [of A ?s1]
      by (simp add: watchableDoc_receive_s1)
    from p d e h show ?thesis by simp
  qed
  have ret: "\<forall>d. fst ?r = Inr d \<longrightarrow> d = doc (watchableDoc (snd ?r))"
    by (cases "changes m") (auto simp: receive_pull receive_push split: sum.splits)
  from theirs [unfolded theirs_receive_s1] push pull ret show ?thesis
    unfolding Let_def receive_s1_def [symmetric] by blast
qed

lemma oursGrows_refl: "oursGrows s s"
  by (simp add: oursGrows_def lessOrEqual_refl)

lemma oursGrows_trans: "oursGrows s s' \<Longrightarrow> oursGrows s' s'' \<Longrightarrow> oursGrows s s''"
  unfolding oursGrows_def by (rule lessOrEqual_trans)

lemma frame_oursGrows: "frame s s' \<Longrightarrow> oursGrows s s'"
  by (simp add: frame_def oursGrows_def)

lemma oursGrows_cong_left: "ours (clock t) = ours (clock s) \<Longrightarrow> oursGrows t s' \<Longrightarrow> oursGrows s s'"
  by (simp add: oursGrows_def oursClock_def getClock_def)

lemma oursGrows_receive: "oursGrows s (snd (receive A m s))"
proof (cases "changes m")
  case None
  have "oursGrows (receive_s1 A m s) (snd (maybeSendChanges A (receive_s1 A m s)))"
    by (rule frame_oursGrows [OF frame_maybeSendChanges])
  then show ?thesis
    using None by (simp add: receive_pull) (rule oursGrows_cong_left [OF ours_receive_s1])
next
  case (Some cs)
  let ?s1 = "receive_s1 A m s"
  let ?d = "applyChanges A (doc (watchableDoc ?s1)) cs"
  have "oursGrows (?s1\<lparr>watchableDoc := (watchableDoc ?s1)\<lparr>doc := ?d\<rparr>\<rparr>) (snd (WatchableDoc_set A ?d ?s1))"
    by (rule frame_oursGrows [OF frame_WatchableDoc_set])
  then have "oursGrows s (snd (WatchableDoc_set A ?d ?s1))"
    by (rule oursGrows_cong_left [rotated]) (simp add: ours_receive_s1)
  then show ?thesis
    using Some by (simp add: receive_push snd_WatchableDoc_applyChanges)
qed

lemma maybeSendChanges_nothing_missing:
  "(\<forall>t. theirs (clock s) = Some t \<longrightarrow> getMissingChanges A (doc (watchableDoc s)) t = []) \<Longrightarrow>
   maybeSendChanges A s = (Inr (), s)"
  by (simp add: maybeSendChanges_def getClock_def getState_def Let_def split: option.splits)

lemma maybeSendChanges_missing:
  "theirs (clock s) = Some t \<Longrightarrow> getMissingChanges A (doc (watchableDoc s)) t \<noteq> [] \<Longrightarrow>
   clockOf A (doc (watchableDoc s)) = Some c \<Longrightarrow>
   maybeSendChanges A s =
     (Inr (), updateClock A Ours None
        (send \<lparr>Message.clock = Some c, changes = Some (getMissingChanges A (doc (watchableDoc s)) t)\<rparr> s))"
  by (simp add: maybeSendChanges_def sendChanges_def getClock_def getState_def getClockFromDoc_def Let_def)

text \<open>
  Claim C10, as amended. \<^verbatim>\<open>receive(m)\<close> never shrinks \<^verbatim>\<open>ours\<close>. It leaves \<^verbatim>\<open>ours\<close> (and
  what was sent) as it was when the message carries no changes and no change is missing
  from the recorded \<^verbatim>\<open>theirs\<close>, and when the message carries changes and no handler is
  subscribed. When the message carries no changes and changes are missing from \<^verbatim>\<open>theirs\<close>,
  they are sent with the document's clock and \<^verbatim>\<open>ours\<close> becomes the merge of \<^verbatim>\<open>ours\<close> with
  that clock.
\<close>
theorem receive_ours:
  "let s1 = (case Message.clock m of Some c \<Rightarrow> updateClock A Theirs (Some c) s | None \<Rightarrow> s);
       r = receive A m s
   in lessOrEqual (oursClock s) (oursClock (snd r)) \<and>
      (changes m = None \<and>
       (\<forall>t. theirs (clock s1) = Some t \<longrightarrow> getMissingChanges A (doc (watchableDoc s)) t = []) \<longrightarrow>
         ours (clock (snd r)) = ours (clock s) \<and> sent (snd r) = sent s) \<and>
      (\<forall>t c. changes m = None \<and> theirs (clock s1) = Some t \<and>
             getMissingChanges A (doc (watchableDoc s)) t \<noteq> [] \<and>
             clockOf A (doc (watchableDoc s)) = Some c \<longrightarrow>
         oursClock (snd r) = mergeWith largestWins (oursClock s) c \<and>
         sent (snd r) = sent s @
           [\<lparr>Message.clock = Some c, changes = Some (getMissingChanges A (doc (watchableDoc s)) t)\<rparr>]) \<and>
      (\<forall>cs. changes m = Some cs \<and> handlers (watchableDoc s) = [] \<longrightarrow>
         ours (clock (snd r)) = ours (clock s) \<and> sent (snd r) = sent s)"
proof -
  let ?s1 = "receive_s1 A m s"
  let ?r = "receive A m s"
  have sent1: "sent ?s1 = sent s"
    by (simp add: receive_s1_def sent_updateClock split: option.splits)
  have ours1: "oursClock ?s1 = oursClock s"
    by (rule oursClock_cong [OF ours_receive_s1])
  have grows: "lessOrEqual (oursClock s) (oursClock (snd ?r))"
    using oursGrows_receive [of s A m] by (simp add: oursGrows_def)
  have quiet: "ours (clock (snd ?r)) = ours (clock s) \<and> sent (snd ?r) = sent s"
    if "changes m = None"
      "\<forall>t. theirs (clock ?s1) = Some t \<longrightarrow> getMissingChanges A (doc (watchableDoc s)) t = []"
    using that maybeSendChanges_nothing_missing [of ?s1 A]
    by (simp add: receive_pull watchableDoc_receive_s1 ours_receive_s1 sent1)
  have pushes: "oursClock (snd ?r) = mergeWith largestWins (oursClock s) c \<and>
         sent (snd ?r) = sent s @
           [\<lparr>Message.clock = Some c, changes = Some (getMissingChanges A (doc (watchableDoc s)) t)\<rparr>]"
    if "changes m = None" "theirs (clock ?s1) = Some t"
       "getMissingChanges A (doc (watchableDoc s)) t \<noteq> []"
       "clockOf A (doc (watchableDoc s)) = Some c" for t c
  proof -
    have "snd ?r = updateClock A Ours None
        (send \<lparr>Message.clock = Some c, changes = Some (getMissingChanges A (doc (watchableDoc s)) t)\<rparr> ?s1)"
      using that maybeSendChanges_missing [of ?s1 t A c]
      by (simp add: receive_pull watchableDoc_receive_s1)
    moreover have "oursClock (send msg ?s1) = oursClock s" for msg :: "'b Message"
      by (simp add: send_def oursClock_def getClock_def ours_receive_s1)
    moreover have "orClockFromDoc A None (send msg ?s1) = Some c" for msg :: "'b Message"
      using that(4)
      by (simp add: orClockFromDoc_def getClockFromDoc_def getState_def send_def
          watchableDoc_receive_s1)
    ultimately show ?thesis
      by (simp add: oursClock_updateClock_Ours sent_updateClock)
         (simp add: send_def sent1)
  qed
  have applied: "ours (clock (snd ?r)) = ours (clock s) \<and> sent (snd ?r) = sent s"
    if "changes m = Some cs" "handlers (watchableDoc s) = []" for cs
    using that
    by (simp add: receive_push snd_WatchableDoc_applyChanges WatchableDoc_set_no_handlers
        watchableDoc_receive_s1 ours_receive_s1 sent1)
  from grows quiet pushes applied show ?thesis
    unfolding Let_def receive_s1_def [symmetric] by blast
qed

text \<open>
  A pull request and a push, received by a new DocumentSync over a document with one
  change: both calls return the document.
\<close>
theorem receive_steps_witness:
  "changes pullMessage = None \<and>
   clockOf toy (doc (watchableDoc exampleSync)) \<noteq> None \<and>
   fst (receive toy pullMessage exampleSync) = Inr (doc (watchableDoc exampleSync)) \<and>
   theirs (clock (snd (receive toy pullMessage exampleSync))) =
     Some (mergeWith largestWins Mapping.empty Mapping.empty) \<and>
   changes pushMessage = Some [(''b'', 1)] \<and>
   handlers (watchableDoc exampleSync) = [] \<and>
   fst (receive toy pushMessage exampleSync) =
     Inr (applyChanges toy (doc (watchableDoc exampleSync)) [(''b'', 1)])"
proof -
  have a: "changes pullMessage = None" "Message.clock pullMessage = Some Mapping.empty"
    by (simp_all add: pullMessage_def)
  have b: "clockOf toy (doc (watchableDoc exampleSync)) \<noteq> None"
    by (simp add: toy_def)
  have c: "changes pushMessage = Some [(''b'', 1)]"
    by (simp add: pushMessage_def)
  have d: "handlers (watchableDoc exampleSync) = []"
    "theirs (clock exampleSync) = Some Mapping.empty"
    by (simp_all add: exampleSync_def constructor_def)
  note pull = receive_steps [where m = pullMessage and A = toy and s = exampleSync, unfolded Let_def]
  note push = receive_steps [where m = pushMessage and A = toy and s = exampleSync, unfolded Let_def]
  have "theirs (clock (snd (receive toy pullMessage exampleSync))) =
     Some (mergeWith largestWins Mapping.empty Mapping.empty)"
    using pull [THEN conjunct1] a d by simp
  moreover have "fst (receive toy pullMessage exampleSync) = Inr (doc (watchableDoc exampleSync))"
    using pull [THEN conjunct2, THEN conjunct2, THEN conjunct1] a b by simp
  moreover have "fst (receive toy pushMessage exampleSync) =
     Inr (applyChanges toy (doc (watchableDoc exampleSync)) [(''b'', 1)])"
    using push [THEN conjunct2, THEN conjunct1] c d by simp
  ultimately show ?thesis using a b c d by simp
qed

text \<open>
  Claim C10 as stated fails: a new DocumentSync over a document with one change answers a
  pull request by sending the change, and \<^verbatim>\<open>sendChanges\<close> updates \<^verbatim>\<open>ours\<close>.
\<close>
theorem receive_modifies_ours_counterexample:
  "ours (clock (snd (receive toy pullMessage exampleSync))) \<noteq> ours (clock exampleSync)"
proof -
  have "ours (clock (snd (receive toy pullMessage exampleSync))) = Some clockA1"
    by code_simp
  moreover have "ours (clock exampleSync) = Some Mapping.empty"
    by (simp add: exampleSync_def constructor_def)
  moreover have "Mapping.keys clockA1 \<noteq> Mapping.keys (Mapping.empty :: Clock)"
    by (simp add: clockA1_def)
  then have "clockA1 \<noteq> Mapping.empty" by metis
  ultimately show ?thesis by simp
qed

text \<open>
  The pull request above makes \<^verbatim>\<open>ours\<close> the merge with the document's clock; the push,
  with no handler subscribed, leaves \<^verbatim>\<open>ours\<close> alone.
\<close>
theorem receive_ours_witness:
  "changes pullMessage = None \<and>
   theirs (clock (receive_s1 toy pullMessage exampleSync)) = Some (mergeWith largestWins Mapping.empty Mapping.empty) \<and>
   getMissingChanges toy (doc (watchableDoc exampleSync)) (mergeWith largestWins Mapping.empty Mapping.empty) \<noteq> [] \<and>
   clockOf toy (doc (watchableDoc exampleSync)) = Some clockA1 \<and>
   oursClock (snd (receive toy pullMessage exampleSync)) =
     mergeWith largestWins (oursClock exampleSync) clockA1 \<and>
   changes pushMessage = Some [(''b'', 1)] \<and>
   handlers (watchableDoc exampleSync) = [] \<and>
   ours (clock (snd (receive toy pushMessage exampleSync))) = ours (clock exampleSync)"
proof -
  let ?t = "mergeWith largestWins Mapping.empty Mapping.empty"
  have a: "changes pullMessage = None"
    by (simp add: pullMessage_def)
  have b: "theirs (clock (receive_s1 toy pullMessage exampleSync)) = Some ?t"
    by (simp add: theirs_receive_s1 pullMessage_def exampleSync_def constructor_def)
  have c: "getMissingChanges toy (doc (watchableDoc exampleSync)) ?t \<noteq> []"
    by (simp add: toy_def exampleSync_def constructor_def mergeWith_def lookup_default_def
        lookup_combine)
  have d: "clockOf toy (doc (watchableDoc exampleSync)) = Some clockA1"
    by code_simp
  have e: "changes pushMessage = Some [(''b'', 1)]"
    by (simp add: pushMessage_def)
  have f: "handlers (watchableDoc exampleSync) = []"
    by (simp add: exampleSync_def constructor_def)
  note pull = receive_ours [where m = pullMessage and A = toy and s = exampleSync,
      unfolded Let_def receive_s1_def [symmetric]]
  note push = receive_ours [where m = pushMessage and A = toy and s = exampleSync,
      unfolded Let_def receive_s1_def [symmetric]]
  have "oursClock (snd (receive toy pullMessage exampleSync)) =
     mergeWith largestWins (oursClock exampleSync) clockA1"
    using pull [THEN conjunct2, THEN conjunct2, THEN conjunct1] a b c d by blast
  moreover have "ours (clock (snd (receive toy pushMessage exampleSync))) = ours (clock exampleSync)"
    using push [THEN conjunct2, THEN conjunct2, THEN conjunct2] e f by blast
  ultimately show ?thesis using a b c d e f by blast
qed

subsection \<open>Sequences of operations: ours only grows\<close>

lemma oursGrows_andThen:
  assumes "oursGrows s (snd r)" and "\<And>x s'. oursGrows s s' \<Longrightarrow> oursGrows s (snd (f x s'))"
  shows "oursGrows s (snd (andThen r f))"
  using assms by (rule andThen_snd_cases [where P = "oursGrows s"])

lemma oursGrows_open: "oursGrows s (snd (DocumentSync_open A s))"
  unfolding DocumentSync_open_def Let_def
proof (intro oursGrows_andThen)
  show "oursGrows s (snd (validateDoc (getClockFromDoc A s) s))"
    by (rule frame_oursGrows [OF frame_validateDoc])
next
  fix x s' assume "oursGrows s s'"
  then show "oursGrows s (snd (requestChanges A (getClockFromDoc A s) s'))"
    by (rule oursGrows_trans) (rule frame_oursGrows [OF frame_requestChanges])
next
  fix x :: unit and y :: unit and s' :: "('a, 'b) DocumentSync"
  assume g: "oursGrows s s'"
  have "oursGrows s' (updateClock A Ours (getClockFromDoc A s) s')"
    by (rule frame_oursGrows [OF frame_updateClock_Ours])
  with g have "oursGrows s (updateClock A Ours (getClockFromDoc A s) s')"
    by (rule oursGrows_trans)
  then show "oursGrows s (snd (case bind_docChanged (updateClock A Ours (getClockFromDoc A s) s') of
      (h, s4) \<Rightarrow> (Inr (), s4\<lparr>watchableDoc := registerHandler h (watchableDoc s4)\<rparr>)))"
    by (simp add: bind_docChanged_def oursGrows_def oursClock_def getClock_def)
qed

lemma oursGrows_close: "oursGrows s (snd (DocumentSync_close s))"
  by (simp add: DocumentSync_close_def bind_docChanged_def oursGrows_def oursClock_def
      getClock_def lessOrEqual_refl)

lemma oursGrows_set: "oursGrows s (snd (WatchableDoc_set A d s))"
proof -
  have "oursGrows (s\<lparr>watchableDoc := (watchableDoc s)\<lparr>doc := d\<rparr>\<rparr>) (snd (WatchableDoc_set A d s))"
    by (rule frame_oursGrows [OF frame_WatchableDoc_set])
  then show ?thesis
    by (rule oursGrows_cong_left [rotated]) simp
qed

lemma oursGrows_perform: "oursGrows s (snd (perform A x s))"
proof (cases x)
  case Open
  then show ?thesis by (simp add: oursGrows_open)
next
  case Close
  then show ?thesis by (simp add: oursGrows_close)
next
  case (Receive m)
  then show ?thesis by (simp add: snd_andThen_return oursGrows_receive)
next
  case DocChanged
  then show ?thesis by (simp add: frame_oursGrows [OF frame_docChanged])
next
  case (SetDoc d)
  then show ?thesis by (simp add: oursGrows_set)
qed

lemma oursGrows_performAll: "oursGrows s (snd (performAll A xs s))"
proof (induction xs arbitrary: s)
  case Nil
  show ?case by (simp add: oursGrows_refl)
next
  case (Cons x xs)
  show ?case
  proof (simp, rule oursGrows_andThen)
    show "oursGrows s (snd (perform A x s))"
      by (rule oursGrows_perform)
  next
    fix u s' assume "oursGrows s s'"
    then show "oursGrows s (snd (performAll A xs s'))"
      by (rule oursGrows_trans) (rule Cons.IH)
  qed
qed

lemma performAll_append:
  "performAll A (xs @ ys) s = andThen (performAll A xs s) (\<lambda>_ s'. performAll A ys s')"
proof (induction xs arbitrary: s)
  case Nil
  show ?case by (simp add: andThen_Inr)
next
  case (Cons x xs)
  show ?case
  proof (cases "perform A x s")
    case (Pair a s')
    then show ?thesis
      by (cases a) (simp_all add: andThen_Inl andThen_Inr Cons.IH)
  qed
qed

text \<open>
  Claim C3. When a sequence of operations (\<^verbatim>\<open>open\<close>, \<^verbatim>\<open>close\<close>, \<^verbatim>\<open>receive\<close>, \<^verbatim>\<open>docChanged\<close>,
  and changes of the document by its owner) completes without an error, then at every
  earlier point of the sequence the operations so far had completed too, and the \<^verbatim>\<open>ours\<close>
  clock there is below the final \<^verbatim>\<open>ours\<close> clock, actor by actor; the initial \<^verbatim>\<open>ours\<close> is
  below both.
\<close>
theorem ours_monotone:
  assumes "performAll A (xs @ ys) s = (Inr (), s2)"
  shows "\<exists>s1. performAll A xs s = (Inr (), s1) \<and> performAll A ys s1 = (Inr (), s2) \<and>
           lessOrEqual (oursClock s) (oursClock s1) \<and>
           lessOrEqual (oursClock s1) (oursClock s2) \<and>
           (\<forall>k. Mapping.lookup_default 0 (oursClock s1) k \<le> Mapping.lookup_default 0 (oursClock s2) k)"
proof (cases "performAll A xs s")
  case (Pair a s1)
  show ?thesis
  proof (cases a)
    case (Inl e)
    with Pair assms show ?thesis
      by (simp add: performAll_append andThen_Inl)
  next
    case (Inr u)
    with Pair assms have ys: "performAll A ys s1 = (Inr (), s2)"
      by (simp add: performAll_append andThen_Inr)
    have "oursGrows s s1"
      using oursGrows_performAll [of s A xs] Pair by simp
    moreover have g: "oursGrows s1 s2"
      using oursGrows_performAll [of s1 A ys] ys by simp
    ultimately show ?thesis
      using Pair Inr ys lessOrEqual_pointwise [of "oursClock s1" "oursClock s2"]
      by (simp add: oursGrows_def)
  qed
qed

text \<open>Four operations on a new DocumentSync, split after the second.\<close>
theorem ours_monotone_witness:
  "performAll toy ([Open, SetDoc [(''a'', 1)]] @ [Receive pushMessage, Close]) emptySync =
     (Inr (), snd (performAll toy [Open, SetDoc [(''a'', 1)], Receive pushMessage, Close] emptySync)) \<and>
   (\<exists>s1. performAll toy [Open, SetDoc [(''a'', 1)]] emptySync = (Inr (), s1) \<and>
      lessOrEqual (oursClock s1)
        (oursClock (snd (performAll toy [Open, SetDoc [(''a'', 1)], Receive pushMessage, Close] emptySync))))"
proof -
  have "fst (performAll toy [Open, SetDoc [(''a'', 1)], Receive pushMessage, Close] emptySync) = Inr ()"
    by code_simp
  then have h: "performAll toy ([Open, SetDoc [(''a'', 1)]] @ [Receive pushMessage, Close]) emptySync =
     (Inr (), snd (performAll toy [Open, SetDoc [(''a'', 1)], Receive pushMessage, Close] emptySync))"
    by (simp add: prod_eq_iff)
  from ours_monotone [OF h] h show ?thesis by blast
qed

subsection \<open>close\<close>

lemma DocumentSync_close_keeps_handlers:
  assumes "\<forall>h \<in> set (handlers (watchableDoc s)). h < bound s"
  shows "handlers (watchableDoc (snd (DocumentSync_close s))) = handlers (watchableDoc s)"
proof -
  from assms have "bound s \<notin> set (handlers (watchableDoc s))" by auto
  then show ?thesis
    by (simp add: DocumentSync_close_def bind_docChanged_def unregisterHandler_def)
qed

lemma DocumentSync_close_sends_nothing: "sent (snd (DocumentSync_close s)) = sent s"
  by (simp add: DocumentSync_close_def bind_docChanged_def)

text \<open>
  Claim C5, on the code. \<^verbatim>\<open>close()\<close> sends no message, and it passes a newly bound function
  to \<^verbatim>\<open>unregisterHandler\<close>, which is not the function \<^verbatim>\<open>open()\<close> registered: after \<^verbatim>\<open>open\<close>
  and \<^verbatim>\<open>close\<close> the handler of \<^verbatim>\<open>open\<close> is still subscribed, and the next change of the
  document makes this DocumentSync send a message.
\<close>
theorem close_leaves_handler_subscribed:
  "handlers (watchableDoc (snd (performAll toy [Open] emptySync))) = [0] \<and>
   handlers (watchableDoc (snd (performAll toy [Open, Close] emptySync))) = [0] \<and>
   sent (snd (performAll toy [Open, Close] emptySync)) =
     [\<lparr>Message.clock = Some Mapping.empty, changes = None\<rparr>] \<and>
   performAll toy [Open, Close, SetDoc [(''a'', 1)]] emptySync =
     (Inr (), snd (performAll toy [Open, Close, SetDoc [(''a'', 1)]] emptySync)) \<and>
   sent (snd (performAll toy [Open, Close, SetDoc [(''a'', 1)]] emptySync)) =
     [\<lparr>Message.clock = Some Mapping.empty, changes = None\<rparr>,
      \<lparr>Message.clock = Some clockA1, changes = Some [(''a'', 1)]\<rparr>]"
proof -
  have a: "handlers (watchableDoc (snd (performAll toy [Open] emptySync))) = [0]"
    by code_simp
  have b: "handlers (watchableDoc (snd (performAll toy [Open, Close] emptySync))) = [0]"
    by code_simp
  have c: "sent (snd (performAll toy [Open, Close] emptySync)) =
     [\<lparr>Message.clock = Some Mapping.empty, changes = None\<rparr>]"
    by code_simp
  have "fst (performAll toy [Open, Close, SetDoc [(''a'', 1)]] emptySync) = Inr ()"
    by code_simp
  then have d: "performAll toy [Open, Close, SetDoc [(''a'', 1)]] emptySync =
     (Inr (), snd (performAll toy [Open, Close, SetDoc [(''a'', 1)]] emptySync))"
    by (simp add: prod_eq_iff)
  have e: "sent (snd (performAll toy [Open, Close, SetDoc [(''a'', 1)]] emptySync)) =
     [\<lparr>Message.clock = Some Mapping.empty, changes = None\<rparr>,
      \<lparr>Message.clock = Some clockA1, changes = Some [(''a'', 1)]\<rparr>]"
    by code_simp
  from a b c d e show ?thesis by blast
qed

subsection \<open>StoreManager\<close>

lemma listeners_removePeer: "listeners (removePeer p s) = listeners s"
  by (simp add: removePeer_def Connection_close_def Let_def split: option.splits)

lemma notified_removePeer: "notified (removePeer p s) = notified s"
  by (simp add: removePeer_def Connection_close_def Let_def split: option.splits)

lemma fold_removePeer_listeners:
  "listeners (fold removePeer ps s) = listeners s \<and> notified (fold removePeer ps s) = notified s"
  by (induction ps arbitrary: s) (simp_all add: listeners_removePeer notified_removePeer)

text \<open>
  Claim C8, on the code. \<^verbatim>\<open>close()\<close> removes all listeners first, so the \<^verbatim>\<open>close\<close> event it
  emits last reaches nobody: no listener is called by \<^verbatim>\<open>close()\<close>. On the example, the
  connection is closed, the connections are empty, repo and store are gone, and the
  listener registered for \<^verbatim>\<open>close\<close> was not called.
\<close>
theorem StoreManager_close_notifies_nobody:
  "notified (StoreManager_close s) = notified s \<and>
   listeners (StoreManager_close s) = [] \<and>
   listeners exampleManager = [(''close'', 7)] \<and>
   StoreManager_close exampleManager =
     \<lparr>repo = None, store = None, connections = [], listeners = [], closed = [connection0],
      notified = [], peerCloseListeners = [''p''], constructed = 1\<rparr>"
proof -
  have "listeners (fold removePeer ps (removeAllListeners s)) = []" for ps
    by (simp add: fold_removePeer_listeners removeAllListeners_def)
  moreover have "notified (fold removePeer ps (removeAllListeners s)) = notified s" for ps
    by (simp add: fold_removePeer_listeners removeAllListeners_def)
  ultimately have "notified (StoreManager_close s) = notified s \<and>
     listeners (StoreManager_close s) = []"
    by (simp add: StoreManager_close_def Let_def emit_def)
  moreover have "listeners exampleManager = [(''close'', 7)]"
    by (simp add: exampleManager_def)
  moreover have "StoreManager_close exampleManager =
     \<lparr>repo = None, store = None, connections = [], listeners = [], closed = [connection0],
      notified = [], peerCloseListeners = [''p''], constructed = 1\<rparr>"
    by (simp add: StoreManager_close_def exampleManager_def removeAllListeners_def
        Object_keys_def removePeer_def Connection_close_def emit_def Let_def)
  ultimately show ?thesis by blast
qed

lemma fold_removePeer_closes:
  "distinct (map fst (connections s)) \<Longrightarrow>
   closed (fold removePeer (Object_keys (connections s)) s) = closed s @ map snd (connections s) \<and>
   connections (fold removePeer (Object_keys (connections s)) s) = []"
proof (induction "connections s" arbitrary: s)
  case Nil
  then show ?case by (simp add: Object_keys_def)
next
  case (Cons kc rest)
  obtain k c where kc: "kc = (k, c)" by (cases kc)
  let ?s' = "removePeer k s"
  from Cons.hyps(2) [symmetric] Cons.prems kc have notin: "k \<notin> fst ` set rest"
    by auto
  from Cons.hyps(2) [symmetric] kc notin have con: "connections ?s' = rest"
    by (simp add: removePeer_def Connection_close_def Let_def)
  from Cons.hyps(2) [symmetric] kc have clo: "closed ?s' = closed s @ [c]"
    by (simp add: removePeer_def Connection_close_def Let_def)
  from Cons.hyps(2) [symmetric] Cons.prems have "distinct (map fst rest)" by simp
  with con have d: "distinct (map fst (connections ?s'))" by simp
  from Cons.hyps(1) [OF con [symmetric] d] con clo
  have "closed (fold removePeer (Object_keys rest) ?s') = (closed s @ [c]) @ map snd rest \<and>
        connections (fold removePeer (Object_keys rest) ?s') = []"
    by simp
  with Cons.hyps(2) [symmetric] kc show ?case
    by (simp add: Object_keys_def)
qed

lemma StoreManager_close_closes_all:
  assumes "distinct (map fst (connections s))"
  shows "closed (StoreManager_close s) = closed s @ map snd (connections s) \<and>
         connectionCount (StoreManager_close s) = 0 \<and>
         repo (StoreManager_close s) = None \<and> store (StoreManager_close s) = None"
proof -
  let ?s1 = "removeAllListeners s"
  have c: "connections ?s1 = connections s" "closed ?s1 = closed s"
    by (simp_all add: removeAllListeners_def)
  with assms fold_removePeer_closes [of ?s1]
  have "closed (fold removePeer (Object_keys (connections ?s1)) ?s1) = closed s @ map snd (connections s)"
    by simp
  then show ?thesis
    by (simp add: StoreManager_close_def Let_def emit_def connectionCount_def Object_keys_def)
qed

lemma one_entry:
  "distinct (map fst al) \<Longrightarrow> k \<in> fst ` set al \<Longrightarrow>
   length (filter (\<lambda>(p, c). p = k) al) = 1"
proof (induction al)
  case Nil
  then show ?case by simp
next
  case (Cons x al)
  obtain p c where x: "x = (p, c)" by (cases x)
  show ?case
  proof (cases "p = k")
    case True
    with Cons.prems x have "k \<notin> fst ` set al" by auto
    then have "filter (\<lambda>(p, c). p = k) al = []"
      by (force simp: filter_empty_conv)
    with True x show ?thesis by simp
  next
    case False
    with Cons x show ?thesis by auto
  qed
qed

text \<open>
  Claim C9, on the code. \<^verbatim>\<open>addPeer\<close> assigns the new Connection to
  \<^verbatim>\<open>this.connections[peer.id]\<close> and calls \<^verbatim>\<open>close()\<close> on nothing: the Connection recorded
  before under that id is dropped without being closed. On the example, the peer \<^verbatim>\<open>p\<close>
  has the connection number 0; after adopting \<^verbatim>\<open>p\<close> again one connection, number 1, is
  recorded and nothing was closed; and neither \<^verbatim>\<open>removePeer\<close> for \<^verbatim>\<open>p\<close> (the listener
  installed on the peer's \<^verbatim>\<open>close\<close> event) nor \<^verbatim>\<open>close()\<close> of the StoreManager closes the
  connection number 0 afterwards: each closes the connection number 1 only.
\<close>
theorem addPeer_leaks_prior_connection:
  "map_of (connections exampleManager) (peerId peerP) = Some connection0 \<and>
   closed (addPeer peerP ''k'' exampleManager) = [] \<and>
   map_of (connections (addPeer peerP ''k'' exampleManager)) (peerId peerP) =
     Some \<lparr>connId = 1, socket = (''p'', ''k'')\<rparr> \<and>
   connectionCount (addPeer peerP ''k'' exampleManager) = 1 \<and>
   closed (removePeer ''p'' (addPeer peerP ''k'' exampleManager)) =
     [\<lparr>connId = 1, socket = (''p'', ''k'')\<rparr>] \<and>
   closed (StoreManager_close (addPeer peerP ''k'' exampleManager)) =
     [\<lparr>connId = 1, socket = (''p'', ''k'')\<rparr>]"
proof -
  have s: "addPeer peerP ''k'' exampleManager =
     \<lparr>repo = Some 0, store = Some 0,
      connections = [(''p'', \<lparr>connId = 1, socket = (''p'', ''k'')\<rparr>)],
      listeners = [(''close'', 7)], closed = [], notified = [],
      peerCloseListeners = [''p'', ''p''], constructed = 2\<rparr>"
    by (simp add: addPeer_def exampleManager_def peerP_def peer_get_def emit_def Let_def)
  have a: "map_of (connections exampleManager) (peerId peerP) = Some connection0"
    by (simp add: exampleManager_def peerP_def)
  have b: "closed (removePeer ''p'' (addPeer peerP ''k'' exampleManager)) =
     [\<lparr>connId = 1, socket = (''p'', ''k'')\<rparr>]"
    by (simp add: s removePeer_def Connection_close_def Let_def)
  have c: "closed (StoreManager_close (addPeer peerP ''k'' exampleManager)) =
     [\<lparr>connId = 1, socket = (''p'', ''k'')\<rparr>]"
    by (simp add: s StoreManager_close_def removeAllListeners_def Object_keys_def
        removePeer_def Connection_close_def emit_def Let_def)
  have d: "closed (addPeer peerP ''k'' exampleManager) = []"
    by (simp add: s)
  have e: "map_of (connections (addPeer peerP ''k'' exampleManager)) (peerId peerP) =
     Some \<lparr>connId = 1, socket = (''p'', ''k'')\<rparr>"
    by (simp add: s) (simp add: peerP_def)
  have f: "connectionCount (addPeer peerP ''k'' exampleManager) = 1"
    by (simp add: s connectionCount_def Object_keys_def)
  from a b c d e f show ?thesis by blast
qed

text \<open>
  What \<^verbatim>\<open>addPeer\<close> does record: with store and repo present, the new Connection stands
  under the peer's id, exactly one Connection is recorded there, and the other peers'
  connections are as before. Without store or repo it does nothing.
\<close>

lemma addPeer_records_one_connection:
  assumes "store s \<noteq> None" and "repo s \<noteq> None" and "distinct (map fst (connections s))"
  shows "map_of (connections (addPeer peer k s)) (peerId peer) =
           Some \<lparr>connId = constructed s, socket = peer_get peer k\<rparr> \<and>
         length (filter (\<lambda>(p, c). p = peerId peer) (connections (addPeer peer k s))) = 1 \<and>
         (\<forall>q. q \<noteq> peerId peer \<longrightarrow>
            map_of (connections (addPeer peer k s)) q = map_of (connections s) q)"
proof -
  let ?c = "\<lparr>connId = constructed s, socket = peer_get peer k\<rparr>"
  from assms have con: "connections (addPeer peer k s) = AList.update (peerId peer) ?c (connections s)"
    by (auto simp: addPeer_def emit_def Let_def)
  from assms(3) have "distinct (map fst (AList.update (peerId peer) ?c (connections s)))"
    by (rule distinct_update)
  moreover have "peerId peer \<in> fst ` set (AList.update (peerId peer) ?c (connections s))"
    by (simp add: dom_update)
  ultimately have "length (filter (\<lambda>(p, c). p = peerId peer)
      (AList.update (peerId peer) ?c (connections s))) = 1"
    by (rule one_entry)
  with con show ?thesis
    by (simp add: update_conv')
qed

lemma addPeer_without_store_or_repo:
  "store s = None \<or> repo s = None \<Longrightarrow> addPeer peer k s = s"
  by (auto simp: addPeer_def)

end
